theory Spec2Isabelle
  imports Complex_Main
begin

section \<open>Resilience utilities of the campaign engine (src/utils/resilience.js)\<close>

text \<open>
  The module exports a circuit breaker, a free-tier rate limiter, a graceful-degradation
  manager and a retry helper. Each class becomes a record of its fields and each method a
  function that takes the record and returns the updated one.

  Conventions of the embedding:
  \<^item> JavaScript values that the code tests for truthiness (\<open>a || b\<close>) are values of
    \<open>jsval\<close>; numbers carried as data are integers.
  \<^item> Thrown values are \<open>Error\<close> objects with a string message: the module reads
    \<open>error.message\<close> of every error it catches.
  \<^item> A callable handed to the module (an operation, a variant, a fallback) is a function
    from the state of the world outside the component to the result of the call and the new
    world. The call either throws synchronously, or yields a value or promise that is then
    awaited or returned.
  \<^item> \<open>Date.now()\<close> reads the world through a clock function \<open>clk\<close>.
  \<^item> Output on the console is not part of the model.
\<close>

subsection \<open>Values, errors and calls\<close>

datatype jsval =
    JUndefined
  | JNull
  | JBool bool
  | JNum int
  | JStr string
  | JObj string

text \<open>\<open>JObj\<close> stands for any object or array, named by a label; objects are always truthy.\<close>

fun truthy :: "jsval \<Rightarrow> bool" where
  "truthy JUndefined = False"
| "truthy JNull = False"
| "truthy (JBool b) = b"
| "truthy (JNum n) = (n \<noteq> 0)"
| "truthy (JStr s) = (s \<noteq> [])"
| "truthy (JObj l) = True"

text \<open>The operator \<open>a || b\<close>, with \<open>b\<close> already evaluated to a value.\<close>

definition js_or :: "jsval \<Rightarrow> jsval \<Rightarrow> jsval" where
  "js_or a b = (if truthy a then a else b)"

datatype error = Error (message: string)

text \<open>
  What calling a function does: \<open>Throws\<close> is a synchronous throw, \<open>Rejects\<close> a
  returned promise that rejects, \<open>Resolves\<close> a returned value or a promise that fulfils.
  An \<open>async\<close> function never throws synchronously.
\<close>

datatype call_result = Resolves jsval | Rejects error | Throws error

text \<open>\<open>await f()\<close> inside \<open>try\<close>, or \<open>return f()\<close> outside of it: both kinds of failure
  end up as the exception.\<close>

fun awaited :: "call_result \<Rightarrow> error + jsval" where
  "awaited (Resolves v) = Inr v"
| "awaited (Rejects e) = Inl e"
| "awaited (Throws e) = Inl e"

type_synonym 'w callable = "'w \<Rightarrow> call_result \<times> 'w"

subsection \<open>Strings\<close>

definition toLowerChar :: "char \<Rightarrow> char" where
  "toLowerChar c =
     (let n = (of_char c :: nat) in if 65 \<le> n \<and> n \<le> 90 then char_of (n + 32) else c)"

definition toLowerCase :: "string \<Rightarrow> string" where
  "toLowerCase s = map toLowerChar s"

fun startsWith :: "string \<Rightarrow> string \<Rightarrow> bool" where
  "startsWith s [] = True"
| "startsWith [] (p # ps) = False"
| "startsWith (c # cs) (p # ps) = (c = p \<and> startsWith cs ps)"

fun includes_str :: "string \<Rightarrow> string \<Rightarrow> bool" where
  "includes_str [] pat = (pat = [])"
| "includes_str (c # cs) pat = (startsWith (c # cs) pat \<or> includes_str cs pat)"

fun decimal :: "nat \<Rightarrow> string" where
  "decimal n = (if n < 10 then [char_of (48 + n)]
                else decimal (n div 10) @ [char_of (48 + n mod 10)])"

declare decimal.simps [simp del]

text \<open>\<open>x.toFixed(f)\<close> for a number below \<open>10^21\<close>: the nearest multiple of \<open>10^-f\<close>, the
  larger one of two equally near, written with exactly \<open>f\<close> decimals. The model rounds the
  exact value, the code the double that stands for it: the last digit differs when a double
  lies on the other side of a tie than the exact value (\<open>14.375\<close>, \<open>95.05\<close>).\<close>

definition toFixed :: "nat \<Rightarrow> rat \<Rightarrow> string" where
  "toFixed f x =
     (let y = \<bar>x\<bar>;
          n = nat \<lfloor>y * 10 ^ f + 1 / 2\<rfloor>;
          ds = decimal n;
          padded = replicate (f + 1 - length ds) (CHR ''0'') @ ds;
          k = length padded - f
      in (if x < 0 then ''-'' else [])
         @ take k padded
         @ (if f = 0 then [] else ''.'' @ drop k padded))"

subsection \<open>CircuitBreaker\<close>

datatype circuit_state = CLOSED | OPEN | HALF_OPEN

record breaker_stats =
  totalRequests :: int
  totalFailures :: int
  totalFallbacks :: int

record 'w breaker_options =
  opt_failureThreshold :: "int option"
  opt_resetTimeout :: "int option"
  opt_monitoringPeriod :: "int option"
  opt_fallback :: "'w callable option"

record 'w breaker =
  failureThreshold :: int
  resetTimeout :: int
  monitoringPeriod :: int
  fallback :: "'w callable"
  state :: circuit_state
  failureCount :: int
  lastFailureTime :: "int option"
  successCount :: int
  stats :: breaker_stats

text \<open>\<open>options.x || d\<close> on a numeric option: absent and \<open>0\<close> both give the default.\<close>

definition or_default :: "int option \<Rightarrow> int \<Rightarrow> int" where
  "or_default x d = (case x of None \<Rightarrow> d | Some v \<Rightarrow> if v = 0 then d else v)"

definition new_CircuitBreaker :: "'w breaker_options \<Rightarrow> 'w breaker" where
  "new_CircuitBreaker options =
     \<lparr> failureThreshold = or_default (opt_failureThreshold options) 5,
       resetTimeout = or_default (opt_resetTimeout options) 30000,
       monitoringPeriod = or_default (opt_monitoringPeriod options) 60000,
       fallback = (case opt_fallback options of
                     None \<Rightarrow> (\<lambda>w. (Resolves JNull, w))
                   | Some f \<Rightarrow> f),
       state = CLOSED,
       failureCount = 0,
       lastFailureTime = None,
       successCount = 0,
       stats = \<lparr> totalRequests = 0, totalFailures = 0, totalFallbacks = 0 \<rparr> \<rparr>"

definition onSuccess :: "'w breaker \<Rightarrow> 'w breaker" where
  "onSuccess b =
     (let b1 = b\<lparr> failureCount := 0 \<rparr> in
      if state b1 = HALF_OPEN then
        (let b2 = b1\<lparr> successCount := successCount b1 + 1 \<rparr> in
         if successCount b2 \<ge> 3 then b2\<lparr> state := CLOSED \<rparr> else b2)
      else b1)"

text \<open>\<open>now\<close> is the value of \<open>Date.now()\<close> when the failure is recorded.\<close>

definition onFailure :: "int \<Rightarrow> 'w breaker \<Rightarrow> 'w breaker" where
  "onFailure now b =
     (let b1 = b\<lparr> failureCount := failureCount b + 1,
                  lastFailureTime := Some now,
                  stats := (stats b)\<lparr> totalFailures := totalFailures (stats b) + 1 \<rparr> \<rparr>
      in if failureCount b1 \<ge> failureThreshold b1 then b1\<lparr> state := OPEN \<rparr> else b1)"

definition quotaErrors :: "string list" where
  "quotaErrors =
     [''quota exceeded'', ''rate limit'', ''too many requests'', ''service unavailable'',
      ''timeout'']"

definition shouldUseFallback :: "error \<Rightarrow> bool" where
  "shouldUseFallback err =
     list_ex (\<lambda>pattern. includes_str (toLowerCase (message err)) pattern) quotaErrors"

definition count_fallback :: "'w breaker \<Rightarrow> 'w breaker" where
  "count_fallback b = b\<lparr> stats := (stats b)\<lparr> totalFallbacks := totalFallbacks (stats b) + 1 \<rparr> \<rparr>"

text \<open>\<open>Date.now() - this.lastFailureTime\<close>: \<open>null\<close> counts as \<open>0\<close> in the subtraction.\<close>

definition since_last_failure :: "int \<Rightarrow> 'w breaker \<Rightarrow> int" where
  "since_last_failure now b = now - (case lastFailureTime b of None \<Rightarrow> 0 | Some t \<Rightarrow> t)"

text \<open>The \<open>try\<close> block of \<open>fire\<close> and its \<open>catch\<close>: the operation runs in the world \<open>w\<close>
  and the failure time is read from the world it leaves.\<close>

definition try_operation :: "('w \<Rightarrow> int) \<Rightarrow> 'w breaker \<Rightarrow> 'w callable \<Rightarrow> 'w
    \<Rightarrow> (error + jsval) \<times> 'w breaker \<times> 'w" where
  "try_operation clk b operation w =
     (case operation w of (r, w1) \<Rightarrow>
        (case awaited r of
           Inr result \<Rightarrow> (Inr result, onSuccess b, w1)
         | Inl err \<Rightarrow>
             (let b1 = onFailure (clk w1) b in
              if shouldUseFallback err then
                (let b2 = count_fallback b1 in
                 case fallback b2 w1 of (fr, w2) \<Rightarrow> (awaited fr, b2, w2))
              else (Inl err, b1, w1))))"

definition fire :: "('w \<Rightarrow> int) \<Rightarrow> 'w breaker \<Rightarrow> 'w callable \<Rightarrow> 'w
    \<Rightarrow> (error + jsval) \<times> 'w breaker \<times> 'w" where
  "fire clk b operation w =
     (let b1 = b\<lparr> stats := (stats b)\<lparr> totalRequests := totalRequests (stats b) + 1 \<rparr> \<rparr> in
      if state b1 = OPEN then
        (if since_last_failure (clk w) b1 \<ge> resetTimeout b1 then
           try_operation clk (b1\<lparr> state := HALF_OPEN, successCount := 0 \<rparr>) operation w
         else
           (let b2 = count_fallback b1 in
            case fallback b2 w of (fr, w1) \<Rightarrow> (awaited fr, b2, w1)))
      else try_operation clk b1 operation w)"

text \<open>The two rates of \<open>getStats\<close> are strings made by \<open>toFixed(2)\<close>, or the numbers
  \<open>100\<close> and \<open>0\<close> before the first request.\<close>

record stats_report =
  r_totalRequests :: int
  r_totalFailures :: int
  r_totalFallbacks :: int
  r_state :: circuit_state
  r_failureCount :: int
  r_successRate :: jsval
  r_fallbackRate :: jsval

definition getStats :: "'w breaker \<Rightarrow> stats_report" where
  "getStats b =
     (let s = stats b in
      \<lparr> r_totalRequests = totalRequests s,
        r_totalFailures = totalFailures s,
        r_totalFallbacks = totalFallbacks s,
        r_state = state b,
        r_failureCount = failureCount b,
        r_successRate =
          (if totalRequests s > 0
           then JStr (toFixed 2 (of_int (totalRequests s - totalFailures s)
                                  / of_int (totalRequests s) * 100))
           else JNum 100),
        r_fallbackRate =
          (if totalRequests s > 0
           then JStr (toFixed 2 (of_int (totalFallbacks s) / of_int (totalRequests s) * 100))
           else JNum 0) \<rparr>)"

definition reset :: "'w breaker \<Rightarrow> 'w breaker" where
  "reset b = b\<lparr> state := CLOSED, failureCount := 0, lastFailureTime := None,
               successCount := 0 \<rparr>"

subsection \<open>FreeTierRateLimiter\<close>

record quota =
  used :: int
  limit :: int
  resetTime :: int







text \<open>
  The quotient \<open>quota.used / quota.limit\<close> of two JavaScript numbers: a zero limit gives
  an infinity or \<open>NaN\<close>, and every comparison with \<open>NaN\<close> is false. The code divides and
  compares doubles; the model keeps the exact quotient and compares it with the exact
  threshold. For a count \<open>used \<ge> 0\<close> and a ceiling \<open>0 < limit < 10^14\<close> the two tests
  \<open>used / limit \<ge> 0.95\<close> give the same answer: rounding is monotone, and a quotient below
  \<open>0.95\<close> is below it by \<open>1 / (20 \<times> limit) > 5 \<times> 10^-16\<close> at least, more than the
  \<open>1.6 \<times> 10^-16\<close> by which the double before the double \<open>0.95\<close> is below \<open>0.95\<close>. From
  about \<open>3 \<times> 10^14\<close> on a quotient just below \<open>0.95\<close> can round up to the double
  \<open>0.95\<close>, and the code then refuses a call that the exact test lets pass. The properties
  below are stated for ceilings under \<open>10^14\<close>; \<open>quotient_apart_from_double_095\<close> is the
  arithmetic of this remark.
\<close>

datatype jsnum = Finite rat | PosInfinity | NegInfinity | NaN

definition js_div :: "int \<Rightarrow> int \<Rightarrow> jsnum" where
  "js_div a b =
     (if b \<noteq> 0 then Finite (of_int a / of_int b)
      else if a > 0 then PosInfinity
      else if a < 0 then NegInfinity
      else NaN)"

fun js_ge :: "jsnum \<Rightarrow> rat \<Rightarrow> bool" where
  "js_ge (Finite x) t = (x \<ge> t)"
| "js_ge PosInfinity t = True"
| "js_ge NegInfinity t = False"
| "js_ge NaN t = False"

text \<open>The value of the literal \<open>0.95\<close> in the code, which is the double nearest to
  \<open>95 / 100\<close>, and the double just before it.\<close>

definition double_095 :: rat where
  "double_095 = 8556839292003942 / 2 ^ 53"

definition double_before_095 :: rat where
  "double_before_095 = 8556839292003941 / 2 ^ 53"





subsection \<open>GracefulDegradationManager\<close>

abbreviation (input) NORMAL :: int where "NORMAL \<equiv> 0"
abbreviation (input) REDUCED :: int where "REDUCED \<equiv> 1"
abbreviation (input) MINIMAL :: int where "MINIMAL \<equiv> 2"
abbreviation (input) EMERGENCY :: int where "EMERGENCY \<equiv> 3"

record cache_entry =
  data :: jsval
  expires :: int

text \<open>
  The manager is one object shared by every call site, and the variants handed to
  \<open>executeWithDegradation\<close> call its public methods themselves (they store results in the
  cache and raise the level). So a variant acts on the manager together with the rest of the
  world: the state is the record below, extended by whatever else the program holds.
\<close>

record manager =
  currentLevel :: int
  cache :: "jsval \<rightharpoonup> cache_entry"

record 's operation =
  full :: "'s callable option"
  reduced :: "'s callable option"
  minimal :: "'s callable option"
  cacheKey :: jsval

record fallback_options =
  emergency :: jsval

definition new_GracefulDegradationManager :: manager where
  "new_GracefulDegradationManager = \<lparr> currentLevel = NORMAL, cache = Map.empty \<rparr>"

definition setDegradationLevel :: "int \<Rightarrow> string \<Rightarrow> 'x manager_scheme \<Rightarrow> 'x manager_scheme" where
  "setDegradationLevel level reason s =
     (if currentLevel s \<noteq> level then s\<lparr> currentLevel := level \<rparr> else s)"

definition setCachedResult :: "int \<Rightarrow> jsval \<Rightarrow> jsval \<Rightarrow> int option \<Rightarrow> 'x manager_scheme
    \<Rightarrow> 'x manager_scheme" where
  "setCachedResult now key d ttl s =
     s\<lparr> cache := (cache s)(key \<mapsto>
          \<lparr> data = d, expires = now + (case ttl of None \<Rightarrow> 300000 | Some t \<Rightarrow> t) \<rparr>) \<rparr>"

definition getCachedResult :: "int \<Rightarrow> jsval \<Rightarrow> 'x manager_scheme \<Rightarrow> jsval \<times> 'x manager_scheme" where
  "getCachedResult now key s =
     (case cache s key of
        Some cached \<Rightarrow>
          if expires cached > now then (data cached, s)
          else (JNull, s\<lparr> cache := (cache s)(key := None) \<rparr>)
      | None \<Rightarrow> (JNull, s\<lparr> cache := (cache s)(key := None) \<rparr>))"

text \<open>\<open>operation.full()\<close>: calling a property that is not there throws a \<open>TypeError\<close>.\<close>

definition call_full :: "'s operation \<Rightarrow> 's callable" where
  "call_full operation s =
     (case full operation of
        None \<Rightarrow> (Throws (Error ''operation.full is not a function''), s)
      | Some f \<Rightarrow> f s)"

text \<open>
  How the \<open>try\<close> block of \<open>executeWithDegradation\<close> ends: with the value or the pending
  promise that the \<open>return\<close> statement hands to the caller (\<open>Left\<close> carries what that
  promise settles to), or in the \<open>catch\<close> clause with the exception (\<open>Caught\<close>).
\<close>

datatype try_end = Left "error + jsval" | Caught error

text \<open>\<open>return await f()\<close>: a rejection of the awaited promise is thrown inside \<open>try\<close>.\<close>

definition return_await :: "'s callable \<Rightarrow> 's \<Rightarrow> try_end \<times> 's" where
  "return_await f s =
     (case f s of (r, s1) \<Rightarrow>
        (case awaited r of Inr v \<Rightarrow> (Left (Inr v), s1) | Inl e \<Rightarrow> (Caught e, s1)))"

text \<open>\<open>return f()\<close> with no \<open>await\<close>: only a synchronous throw is caught; the promise
  leaves the \<open>try\<close> block before it settles.\<close>

definition return_call :: "'s callable \<Rightarrow> 's \<Rightarrow> try_end \<times> 's" where
  "return_call f s =
     (case f s of (r, s1) \<Rightarrow>
        (case r of
           Throws e \<Rightarrow> (Caught e, s1)
         | Rejects e \<Rightarrow> (Left (Inl e), s1)
         | Resolves v \<Rightarrow> (Left (Inr v), s1)))"

text \<open>\<open>await variant?.()\<close>: an absent variant gives \<open>undefined\<close>.\<close>

definition await_optional :: "'s callable option \<Rightarrow> 's \<Rightarrow> (error + jsval) \<times> 's" where
  "await_optional variant s =
     (case variant of
        None \<Rightarrow> (Inr JUndefined, s)
      | Some f \<Rightarrow> (case f s of (r, s1) \<Rightarrow> (awaited r, s1)))"

text \<open>The \<open>switch\<close> inside \<open>try\<close>. In \<open>await a || b\<close> the \<open>await\<close> applies to \<open>a\<close>
  alone.\<close>

definition dispatch :: "('x manager_scheme \<Rightarrow> int) \<Rightarrow> 'x manager_scheme operation
    \<Rightarrow> fallback_options \<Rightarrow> 'x manager_scheme \<Rightarrow> try_end \<times> 'x manager_scheme" where
  "dispatch clk operation fallbackOptions s =
     (if currentLevel s = NORMAL then return_await (call_full operation) s
      else if currentLevel s = REDUCED then
        (case await_optional (reduced operation) s of
           (Inl e, s1) \<Rightarrow> (Caught e, s1)
         | (Inr v, s1) \<Rightarrow>
             if truthy v then (Left (Inr v), s1)
             else return_call (call_full operation) s1)
      else if currentLevel s = MINIMAL then
        (case await_optional (minimal operation) s of
           (Inl e, s1) \<Rightarrow> (Caught e, s1)
         | (Inr v, s1) \<Rightarrow>
             if truthy v then (Left (Inr v), s1)
             else (case getCachedResult (clk s1) (cacheKey operation) s1 of
                     (c, s2) \<Rightarrow> (Left (Inr c), s2)))
      else if currentLevel s = EMERGENCY then
        (case getCachedResult (clk s) (cacheKey operation) s of
           (c, s1) \<Rightarrow> (Left (Inr (js_or c (emergency fallbackOptions))), s1))
      else return_await (call_full operation) s)"

text \<open>
  \<open>executeWithDegradation\<close> calls itself from its \<open>catch\<close> clause. A variant may lower
  the level again before it fails, so the recursion need not end: the function is partial
  and \<open>None\<close> stands for a call that never settles.
\<close>

partial_function (option) executeWithDegradation ::
    "('x manager_scheme \<Rightarrow> int) \<Rightarrow> 'x manager_scheme operation \<Rightarrow> fallback_options
     \<Rightarrow> 'x manager_scheme \<Rightarrow> ((error + jsval) \<times> 'x manager_scheme) option" where
  "executeWithDegradation clk operation fallbackOptions s =
     (case dispatch clk operation fallbackOptions s of
        (Left r, s1) \<Rightarrow> Some (r, s1)
      | (Caught err, s1) \<Rightarrow>
          if currentLevel s1 < EMERGENCY then
            executeWithDegradation clk operation fallbackOptions
              (setDegradationLevel (currentLevel s1 + 1) (''Error: '' @ message err) s1)
          else Some (Inl err, s1))"

declare executeWithDegradation.simps [code]

subsection \<open>retryWithBackoff\<close>

record retry_options =
  maxRetries :: "int option"
  baseDelay :: "rat option"
  maxDelay :: "rat option"
  backoffFactor :: "rat option"
  retryCondition :: "(error \<Rightarrow> bool) option"

text \<open>The destructuring defaults: a default applies when the option is absent.\<close>

definition the_maxRetries :: "retry_options \<Rightarrow> int" where
  "the_maxRetries options = (case maxRetries options of None \<Rightarrow> 3 | Some m \<Rightarrow> m)"

definition the_baseDelay :: "retry_options \<Rightarrow> rat" where
  "the_baseDelay options = (case baseDelay options of None \<Rightarrow> 1000 | Some d \<Rightarrow> d)"

definition the_maxDelay :: "retry_options \<Rightarrow> rat" where
  "the_maxDelay options = (case maxDelay options of None \<Rightarrow> 10000 | Some d \<Rightarrow> d)"

definition the_backoffFactor :: "retry_options \<Rightarrow> rat" where
  "the_backoffFactor options = (case backoffFactor options of None \<Rightarrow> 2 | Some f \<Rightarrow> f)"

definition the_retryCondition :: "retry_options \<Rightarrow> error \<Rightarrow> bool" where
  "the_retryCondition options = (case retryCondition options of None \<Rightarrow> (\<lambda>e. True) | Some c \<Rightarrow> c)"

text \<open>
  The two services of the runtime that the loop uses: \<open>Math.random()\<close>, which yields a
  number in \<open>[0, 1)\<close>, and the suspension by \<open>setTimeout\<close>, during which the world moves on.
\<close>

record 'w runtime =
  random :: "'w \<Rightarrow> rat \<times> 'w"
  sleep :: "rat \<Rightarrow> 'w \<Rightarrow> 'w"

text \<open>What \<open>retryWithBackoff\<close> throws: an error of the operation, or the value
  \<open>undefined\<close> of the variable \<open>lastError\<close> that was never assigned.\<close>

datatype thrown = ThrownUndefined | ThrownError error

function retry_loop :: "'w runtime \<Rightarrow> 'w callable \<Rightarrow> retry_options \<Rightarrow> int \<Rightarrow> thrown \<Rightarrow> 'w
    \<Rightarrow> (thrown + jsval) \<times> 'w" where
  "retry_loop rt operation options attempt lastError w =
     (if attempt \<le> the_maxRetries options then
        (case operation w of (r, w1) \<Rightarrow>
           (case awaited r of
              Inr v \<Rightarrow> (Inr v, w1)
            | Inl err \<Rightarrow>
                if attempt = the_maxRetries options \<or> \<not> the_retryCondition options err
                then (Inl (ThrownError err), w1)
                else
                  (case random rt w1 of (u, w2) \<Rightarrow>
                     (let delay = min (the_baseDelay options
                                        * the_backoffFactor options ^ nat attempt)
                                      (the_maxDelay options);
                          jitter = u * (1 / 10) * delay;
                          totalDelay = delay + jitter
                      in retry_loop rt operation options (attempt + 1) (ThrownError err)
                           (sleep rt totalDelay w2)))))
      else (Inl lastError, w))"
  by pat_completeness auto
termination
  by (relation "measure (\<lambda>(rt, operation, options, attempt, lastError, w).
                  nat (the_maxRetries options + 1 - attempt))") auto

declare retry_loop.simps [simp del]

definition retryWithBackoff :: "'w runtime \<Rightarrow> 'w callable \<Rightarrow> retry_options \<Rightarrow> 'w
    \<Rightarrow> (thrown + jsval) \<times> 'w" where
  "retryWithBackoff rt operation options w = retry_loop rt operation options 0 ThrownUndefined w"

subsection \<open>Series of calls, call records and sample inputs\<close>

text \<open>A series of calls of \<open>fire\<close> on one breaker. Each call comes with the world it is made
  in: between two calls time passes and the rest of the program runs.\<close>

fun fire_calls :: "('w \<Rightarrow> int) \<Rightarrow> 'w breaker \<Rightarrow> ('w callable \<times> 'w) list \<Rightarrow> 'w breaker" where
  "fire_calls clk b [] = b"
| "fire_calls clk b ((operation, w) # calls) =
     fire_calls clk (fst (snd (fire clk b operation w))) calls"

text \<open>A call fails when the operation throws or its promise rejects.\<close>

definition fails :: "'w callable \<Rightarrow> 'w \<Rightarrow> bool" where
  "fails operation w = isl (awaited (fst (operation w)))"

text \<open>A recording wrapper, as a test would put one around an operation: the world is paired
  with the record of the results of all invocations so far, and the operation is told how
  many there were. The number of invocations is the length of the record.
  \<open>unrecorded_runtime\<close> lifts the services of the runtime, which leave the record alone.\<close>

definition recorded :: "(nat \<Rightarrow> 'w callable) \<Rightarrow> (call_result list \<times> 'w) callable" where
  "recorded f = (\<lambda>(calls, w). case f (length calls) w of (r, w1) \<Rightarrow> (r, (calls @ [r], w1)))"

definition unrecorded_runtime :: "'w runtime \<Rightarrow> (call_result list \<times> 'w) runtime" where
  "unrecorded_runtime rt =
     \<lparr> random = (\<lambda>(calls, w). case random rt w of (u, w1) \<Rightarrow> (u, (calls, w1))),
       sleep = (\<lambda>d (calls, w). (calls, sleep rt d w)) \<rparr>"

text \<open>Sample inputs. The sample world of a breaker is the time itself.\<close>

definition clock :: "int \<Rightarrow> int" where
  "clock t = t"

definition succeeding :: "jsval \<Rightarrow> 'w callable" where
  "succeeding v w = (Resolves v, w)"

definition rejecting :: "string \<Rightarrow> 'w callable" where
  "rejecting m w = (Rejects (Error m), w)"

definition sample_breaker :: "'w breaker" where
  "sample_breaker =
     new_CircuitBreaker \<lparr> opt_failureThreshold = Some 2, opt_resetTimeout = Some 1000,
                          opt_monitoringPeriod = None, opt_fallback = None \<rparr>"

text \<open>The sample breaker after two failures at times 0 and 1 and, once the reset timeout
  has passed, one success at time 1001.\<close>

definition probing_breaker :: "int breaker" where
  "probing_breaker =
     fire_calls clock sample_breaker
       [(rejecting ''boom'', 0), (rejecting ''boom'', 1), (succeeding JNull, 1001)]"

text \<open>The same with a record of the calls: the world is the record and the time, the
  operation always fails, and the breaker has failed twice, at times 0 and 1.\<close>

definition recorded_clock :: "call_result list \<times> int \<Rightarrow> int" where
  "recorded_clock = (\<lambda>(calls, t). t)"

definition recorded_failure :: "(call_result list \<times> int) callable" where
  "recorded_failure = recorded (\<lambda>n. rejecting ''boom'')"

definition tripped_breaker :: "(call_result list \<times> int) breaker" where
  "tripped_breaker =
     fire_calls recorded_clock sample_breaker
       [(recorded_failure, ([], 0)), (recorded_failure, ([Rejects (Error ''boom'')], 1))]"

text \<open>The variants an operation set supplies, and the variants that never lower the
  degradation level themselves.\<close>

definition variants :: "'s operation \<Rightarrow> 's callable set" where
  "variants operation =
     set_option (full operation) \<union> set_option (reduced operation)
     \<union> set_option (minimal operation)"

definition never_lowers :: "'x manager_scheme callable \<Rightarrow> bool" where
  "never_lowers f = (\<forall>s. currentLevel s \<le> currentLevel (snd (f s)))"

text \<open>Sample inputs for the manager: a clock that stands still, and an operation set with a
  single variant \<open>full\<close>, an \<open>async\<close> function that always fails.\<close>

definition at_time :: "int \<Rightarrow> 's \<Rightarrow> int" where
  "at_time t s = t"

definition failing_full :: "manager operation" where
  "failing_full =
     \<lparr> full = Some (rejecting ''boom''), reduced = None, minimal = None,
       cacheKey = JStr ''k'' \<rparr>"

definition manager_at :: "int \<Rightarrow> manager" where
  "manager_at level = setDegradationLevel level ''sample'' new_GracefulDegradationManager"

text \<open>A manager at the Emergency level whose cache holds \<open>d\<close> under the key \<open>k\<close>, stored at
  time 0 with the default time to live.\<close>

definition cached_manager :: "jsval \<Rightarrow> manager" where
  "cached_manager d =
     setDegradationLevel EMERGENCY ''sample''
       (setCachedResult 0 (JStr ''k'') d None new_GracefulDegradationManager)"

text \<open>An operation set as the data service client builds it: each variant ends in the same
  request, and a request refused for quota reasons sets the level to Reduced before it
  fails.\<close>

definition quota_failure :: "manager callable" where
  "quota_failure s =
     (Rejects (Error ''Campaign targeting failed: quota''),
      setDegradationLevel REDUCED ''D1 quota limit approached'' s)"

definition quota_failing :: "manager operation" where
  "quota_failing =
     \<lparr> full = Some quota_failure, reduced = Some quota_failure, minimal = Some quota_failure,
       cacheKey = JStr ''k'' \<rparr>"



text \<open>Sample inputs for the retry helper. The world is the time; \<open>Math.random()\<close> yields one
  half and a suspension moves the time on by the delay, rounded up. \<open>flaky\<close> fails on its
  first two invocations and succeeds on the third, \<open>hopeless\<close> fails every time.\<close>

definition ticking_runtime :: "int runtime" where
  "ticking_runtime = \<lparr> random = (\<lambda>t. (1 / 2, t)), sleep = (\<lambda>d t. t + \<lceil>d\<rceil>) \<rparr>"

definition flaky :: "nat \<Rightarrow> int callable" where
  "flaky i = (if i < 2 then rejecting ''boom'' else succeeding (JStr ''ok''))"

definition hopeless :: "nat \<Rightarrow> int callable" where
  "hopeless i = rejecting ''boom''"

definition default_options :: retry_options where
  "default_options = \<lparr> maxRetries = None, baseDelay = None, maxDelay = None,
       backoffFactor = None, retryCondition = None \<rparr>"

section \<open>Properties\<close>

subsection \<open>Auxiliary facts\<close>

lemmas sample_defs = sample_breaker_def new_CircuitBreaker_def or_default_def clock_def
  succeeding_def rejecting_def

lemmas fire_defs = fire_def try_operation_def onSuccess_def onFailure_def count_fallback_def
  since_last_failure_def

lemma not_fallback_boom: "\<not> shouldUseFallback (Error ''boom'')"
  by (simp add: shouldUseFallback_def quotaErrors_def toLowerCase_def toLowerChar_def)

lemma probing_breaker_eq:
  "probing_breaker =
     sample_breaker\<lparr> state := HALF_OPEN, failureCount := 0, lastFailureTime := Some 1,
                     successCount := 1,
                     stats := \<lparr> totalRequests = 3, totalFailures = 2, totalFallbacks = 0 \<rparr> \<rparr>"
  by (simp add: probing_breaker_def sample_defs fire_defs not_fallback_boom Let_def)

lemma getCachedResult_level:
  "currentLevel (snd (getCachedResult now key s)) = currentLevel s"
  by (simp add: getCachedResult_def split: option.splits)

lemma call_full_level:
  assumes "\<forall>f\<in>variants operation. never_lowers f"
  shows "currentLevel s \<le> currentLevel (snd (call_full operation s))"
  using assms by (auto simp: call_full_def variants_def never_lowers_def split: option.splits)

lemma await_optional_level:
  assumes "\<forall>f\<in>set_option v. never_lowers f"
  shows "currentLevel s \<le> currentLevel (snd (await_optional v s))"
proof (cases v)
  case None
  then show ?thesis by (simp add: await_optional_def)
next
  case (Some f)
  with assms have "currentLevel s \<le> currentLevel (snd (f s))"
    by (simp add: never_lowers_def)
  with Some show ?thesis
    by (cases "f s") (simp add: await_optional_def)
qed

lemma return_await_level:
  assumes "\<And>s. currentLevel s \<le> currentLevel (snd (f s))"
  shows "currentLevel s \<le> currentLevel (snd (return_await f s))"
  using assms[of s] by (auto simp: return_await_def split: prod.splits sum.splits)

lemma return_call_level:
  assumes "\<And>s. currentLevel s \<le> currentLevel (snd (f s))"
  shows "currentLevel s \<le> currentLevel (snd (return_call f s))"
  using assms[of s] by (auto simp: return_call_def split: prod.splits call_result.splits)

lemma dispatch_level:
  assumes "\<forall>f\<in>variants operation. never_lowers f"
  shows "currentLevel s \<le> currentLevel (snd (dispatch clk operation fb s))"
proof -
  have full: "\<And>s. currentLevel s \<le> currentLevel (snd (call_full operation s))"
    using assms by (rule call_full_level)
  have red: "\<And>s. currentLevel s \<le> currentLevel (snd (await_optional (reduced operation) s))"
    using assms by (intro await_optional_level) (simp add: variants_def)
  have mini: "\<And>s. currentLevel s \<le> currentLevel (snd (await_optional (minimal operation) s))"
    using assms by (intro await_optional_level) (simp add: variants_def)
  note ra = return_await_level[of "call_full operation", OF full]
  note rc = return_call_level[of "call_full operation", OF full]
  show ?thesis
    unfolding dispatch_def
    using ra[of s] red[of s] mini[of s]
      rc[of "snd (await_optional (reduced operation) s)"]
      getCachedResult_level[of "clk (snd (await_optional (minimal operation) s))"
        "cacheKey operation" "snd (await_optional (minimal operation) s)"]
      getCachedResult_level[of "clk s" "cacheKey operation" s]
    by (auto split: prod.splits sum.splits)
qed

lemma rejecting_never_lowers: "never_lowers (rejecting m)"
  by (simp add: never_lowers_def rejecting_def)

lemma failing_full_run:
  "executeWithDegradation (at_time 0) failing_full \<lparr> emergency = JStr ''E'' \<rparr> (manager_at NORMAL)
     = Some (Inl (Error ''boom''), manager_at REDUCED)"
  by (simp add: executeWithDegradation.simps dispatch_def return_await_def return_call_def
        await_optional_def call_full_def failing_full_def rejecting_def manager_at_def
        setDegradationLevel_def new_GracefulDegradationManager_def)

subsection \<open>CircuitBreaker: the state machine\<close>

lemma try_operation_failure:
  assumes "operation w = (r, w1)" and "awaited r = Inl err"
  shows "state (fst (snd (try_operation clk b operation w))) = state (onFailure (clk w1) b)
    \<and> failureCount (fst (snd (try_operation clk b operation w))) = failureCount b + 1
    \<and> lastFailureTime (fst (snd (try_operation clk b operation w))) = Some (clk w1)
    \<and> failureThreshold (fst (snd (try_operation clk b operation w))) = failureThreshold b
    \<and> totalFailures (stats (fst (snd (try_operation clk b operation w))))
           = totalFailures (stats b) + 1"
  using assms
  by (simp add: try_operation_def onFailure_def count_fallback_def Let_def
        split: prod.splits)

lemma fire_not_open:
  assumes "state b \<noteq> OPEN"
  shows "fire clk b operation w =
           try_operation clk
             (b\<lparr> stats := (stats b)\<lparr> totalRequests := totalRequests (stats b) + 1 \<rparr> \<rparr>)
             operation w"
  using assms by (simp add: fire_def Let_def)

lemma fails_cases:
  assumes "fails operation w"
  obtains r w1 err where "operation w = (r, w1)" and "awaited r = Inl err"
  using assms
  by (cases "operation w"; cases "awaited (fst (operation w))") (auto simp: fails_def)

lemma fire_keeps_threshold:
  "failureThreshold (fst (snd (fire clk b operation w))) = failureThreshold b"
  by (simp add: fire_defs Let_def split: prod.splits sum.splits)

lemma fire_failing_closed:
  assumes "fails operation w" and "state b = CLOSED"
  shows "failureCount (fst (snd (fire clk b operation w))) = failureCount b + 1
       \<and> state (fst (snd (fire clk b operation w)))
           = (if failureThreshold b \<le> failureCount b + 1 then OPEN else CLOSED)"
proof -
  from assms(1) obtain r w1 err where op: "operation w = (r, w1)" "awaited r = Inl err"
    by (rule fails_cases)
  let ?b1 = "b\<lparr> stats := (stats b)\<lparr> totalRequests := totalRequests (stats b) + 1 \<rparr> \<rparr>"
  have f: "fire clk b operation w = try_operation clk ?b1 operation w"
    using assms(2) by (simp add: fire_not_open)
  show ?thesis
    unfolding f
    using try_operation_failure[of operation w r w1 err clk ?b1] op assms(2)
    by (simp add: onFailure_def Let_def)
qed

lemma fire_failing_open:
  assumes "fails operation w" and "state b = OPEN" and "failureThreshold b \<le> failureCount b"
  shows "state (fst (snd (fire clk b operation w))) = OPEN
       \<and> failureThreshold b \<le> failureCount (fst (snd (fire clk b operation w)))"
proof -
  from assms(1) obtain r w1 err where op: "operation w = (r, w1)" "awaited r = Inl err"
    by (rule fails_cases)
  let ?b1 = "b\<lparr> stats := (stats b)\<lparr> totalRequests := totalRequests (stats b) + 1 \<rparr> \<rparr>"
  let ?b2 = "?b1\<lparr> state := HALF_OPEN, successCount := 0 \<rparr>"
  show ?thesis
  proof (cases "since_last_failure (clk w) ?b1 \<ge> resetTimeout ?b1")
    case True
    then have f: "fire clk b operation w = try_operation clk ?b2 operation w"
      using assms(2) by (simp add: fire_def Let_def)
    show ?thesis
      unfolding f
      using try_operation_failure[of operation w r w1 err clk ?b2] op assms(3)
      by (simp add: onFailure_def Let_def)
  next
    case False
    then show ?thesis
      using assms(2,3) by (simp add: fire_def count_fallback_def Let_def split: prod.splits)
  qed
qed

text \<open>A run of failing calls: the breaker ends Open with the count at the threshold or
  above, or it was Closed all along and every call added one to a count that is still below
  the threshold.\<close>

lemma fire_calls_failing:
  assumes "list_all (\<lambda>(operation, w). fails operation w) calls"
    and "0 < failureThreshold b"
    and "(state b = OPEN \<and> failureThreshold b \<le> failureCount b) \<or> state b = CLOSED"
  shows "(state (fire_calls clk b calls) = OPEN
            \<and> failureThreshold b \<le> failureCount (fire_calls clk b calls))
         \<or> (state b = CLOSED \<and> state (fire_calls clk b calls) = CLOSED
            \<and> failureCount (fire_calls clk b calls) = failureCount b + int (length calls)
            \<and> (calls \<noteq> [] \<longrightarrow> failureCount (fire_calls clk b calls) < failureThreshold b))"
  using assms
proof (induction calls arbitrary: b)
  case Nil
  then show ?case by auto
next
  case (Cons c calls)
  obtain operation w where c: "c = (operation, w)" by (cases c)
  let ?b1 = "fst (snd (fire clk b operation w))"
  from Cons.prems(1) c have f: "fails operation w"
    and rest: "list_all (\<lambda>(operation, w). fails operation w) calls"
    by simp_all
  have thr: "failureThreshold ?b1 = failureThreshold b"
    by (rule fire_keeps_threshold)
  from Cons.prems(3) show ?case
  proof
    assume o: "state b = OPEN \<and> failureThreshold b \<le> failureCount b"
    with fire_failing_open[OF f, of b clk]
    have b1: "state ?b1 = OPEN \<and> failureThreshold ?b1 \<le> failureCount ?b1"
      by (simp add: thr)
    from Cons.IH[OF rest, of ?b1] Cons.prems(2) b1 thr
    show ?thesis by (auto simp: c)
  next
    assume cl: "state b = CLOSED"
    note step = fire_failing_closed[OF f cl, of clk]
    show ?thesis
    proof (cases "failureThreshold b \<le> failureCount b + 1")
      case True
      with step have b1: "state ?b1 = OPEN \<and> failureThreshold ?b1 \<le> failureCount ?b1"
        by (simp add: thr)
      from Cons.IH[OF rest, of ?b1] Cons.prems(2) b1 thr
      show ?thesis by (auto simp: c)
    next
      case False
      with step have b1: "state ?b1 = CLOSED" "failureCount ?b1 = failureCount b + 1"
        by simp_all
      from Cons.IH[OF rest, of ?b1] Cons.prems(2) b1 thr False cl
      show ?thesis by (cases calls) (auto simp: c)
    qed
  qed
qed

lemma fails_rejecting: "fails (rejecting m) w"
  by (simp add: fails_def rejecting_def)

lemma tripped_breaker_eq:
  "tripped_breaker =
     sample_breaker\<lparr> state := OPEN, failureCount := 2, lastFailureTime := Some 1,
                     stats := \<lparr> totalRequests = 2, totalFailures = 2, totalFallbacks = 0 \<rparr> \<rparr>"
  by (simp add: tripped_breaker_def recorded_failure_def recorded_def recorded_clock_def
        sample_defs fire_defs not_fallback_boom Let_def)

text \<open>
  Claim C1, as amended. For every CircuitBreaker in the HalfOpen state, a failure of the
  invoked operation adds one to \<open>failureCount\<close> and to \<open>totalFailures\<close> and records the
  time of the failure as the new failure clock; the breaker goes back to Open when the new
  \<open>failureCount\<close> has reached \<open>failureThreshold\<close>, and stays HalfOpen otherwise.
\<close>

theorem half_open_failure_reopens_at_threshold:
  assumes "state b = HALF_OPEN" and "operation w = (r, w1)" and "awaited r = Inl err"
  shows "state (fst (snd (fire clk b operation w)))
           = (if failureThreshold b \<le> failureCount b + 1 then OPEN else HALF_OPEN)
         \<and> lastFailureTime (fst (snd (fire clk b operation w))) = Some (clk w1)
         \<and> failureCount (fst (snd (fire clk b operation w))) = failureCount b + 1
         \<and> totalFailures (stats (fst (snd (fire clk b operation w))))
             = totalFailures (stats b) + 1"
proof -
  let ?b1 = "b\<lparr> stats := (stats b)\<lparr> totalRequests := totalRequests (stats b) + 1 \<rparr> \<rparr>"
  have f: "fire clk b operation w = try_operation clk ?b1 operation w"
    using assms(1) by (simp add: fire_not_open)
  show ?thesis
    unfolding f
    using try_operation_failure[of operation w r w1 err clk ?b1] assms
    by (simp add: onFailure_def Let_def)
qed

theorem half_open_failure_reopens_at_threshold_witness:
  "state (probing_breaker\<lparr> failureThreshold := 1 \<rparr>) = HALF_OPEN
   \<and> rejecting ''boom'' (1002::int) = (Rejects (Error ''boom''), 1002)
   \<and> state (fst (snd (fire clock (probing_breaker\<lparr> failureThreshold := 1 \<rparr>)
                (rejecting ''boom'') 1002))) = OPEN
   \<and> lastFailureTime (fst (snd (fire clock (probing_breaker\<lparr> failureThreshold := 1 \<rparr>)
                (rejecting ''boom'') 1002))) = Some 1002"
proof -
  have h1: "state (probing_breaker\<lparr> failureThreshold := 1 \<rparr>) = HALF_OPEN"
    by (simp add: probing_breaker_eq)
  have h2: "rejecting ''boom'' (1002::int) = (Rejects (Error ''boom''), 1002)"
    by (simp add: rejecting_def)
  have h3: "awaited (Rejects (Error ''boom'')) = Inl (Error ''boom'')"
    by simp
  from half_open_failure_reopens_at_threshold
         [of "probing_breaker\<lparr> failureThreshold := 1 \<rparr>" "rejecting ''boom''" 1002
             "Rejects (Error ''boom'')" 1002 "Error ''boom''" clock, OF h1 h2 h3] h1 h2
  show ?thesis
    by (simp add: probing_breaker_eq clock_def)
qed

text \<open>
  Claim C1 as stated has every failure in HalfOpen reopen the breaker, whatever the failure
  count. A breaker with threshold 2 that has tripped, waited out the reset timeout and seen
  one probe succeed is HalfOpen with \<open>failureCount = 0\<close>; the next failure brings the
  count to 1 and the breaker stays HalfOpen.
\<close>

theorem half_open_failure_always_reopens_counterexample:
  "state probing_breaker = HALF_OPEN
   \<and> fails (rejecting ''boom'') (1002::int)
   \<and> state (fst (snd (fire clock probing_breaker (rejecting ''boom'') 1002))) \<noteq> OPEN"
  by (simp add: probing_breaker_eq fails_def sample_defs fire_defs not_fallback_boom Let_def)

text \<open>
  Claim C2. While the breaker is Open, a call of \<open>fire\<close> made less than \<open>resetTimeout\<close>
  milliseconds after the last recorded failure counts one request and one fallback and
  returns what the fallback returns. The result, the breaker and the world after the call
  are those of the fallback alone, whatever the operation is: the operation is not invoked,
  and a record of its calls kept in the world is left as it was.
\<close>

theorem open_breaker_short_circuits:
  assumes "state b = OPEN" and "lastFailureTime b = Some t" and "clk w - t < resetTimeout b"
  shows "fire clk b operation w =
           (awaited (fst (fallback b w)),
            b\<lparr> stats := (stats b)\<lparr> totalRequests := totalRequests (stats b) + 1,
                                   totalFallbacks := totalFallbacks (stats b) + 1 \<rparr> \<rparr>,
            snd (fallback b w))"
  using assms
  by (simp add: fire_def count_fallback_def since_last_failure_def Let_def split: prod.splits)

theorem open_breaker_short_circuits_witness:
  "state tripped_breaker = OPEN
   \<and> lastFailureTime tripped_breaker = Some 1
   \<and> recorded_clock ([Rejects (Error ''boom''), Rejects (Error ''boom'')], 500) - 1
       < resetTimeout tripped_breaker
   \<and> fire recorded_clock tripped_breaker recorded_failure
         ([Rejects (Error ''boom''), Rejects (Error ''boom'')], 500) =
       (Inr JNull,
        tripped_breaker\<lparr> stats :=
          \<lparr> totalRequests = 3, totalFailures = 2, totalFallbacks = 1 \<rparr> \<rparr>,
        ([Rejects (Error ''boom''), Rejects (Error ''boom'')], 500))"
proof -
  let ?w = "([Rejects (Error ''boom''), Rejects (Error ''boom'')], 500) :: call_result list \<times> int"
  have h1: "state tripped_breaker = OPEN"
    by (simp add: tripped_breaker_eq)
  have h2: "lastFailureTime tripped_breaker = Some 1"
    by (simp add: tripped_breaker_eq)
  have h3: "recorded_clock ?w - 1 < resetTimeout tripped_breaker"
    by (simp add: tripped_breaker_eq recorded_clock_def sample_defs)
  from open_breaker_short_circuits
         [of tripped_breaker 1 recorded_clock ?w recorded_failure, OF h1 h2 h3] h1 h2 h3
  show ?thesis
    by (simp add: tripped_breaker_eq sample_defs)
qed

text \<open>
  Claim C7. A breaker in the Closed state, with a positive threshold and a failure count
  that is not negative, is Open after \<open>failureThreshold\<close> calls of \<open>fire\<close> in a row whose
  operation fails: \<open>getStats().state\<close> is \<open>OPEN\<close>. (A success in between would set the
  failure count back to 0.)
\<close>

theorem threshold_failures_open_the_breaker:
  assumes "state b = CLOSED" and "0 \<le> failureCount b" and "0 < failureThreshold b"
    and "length calls = nat (failureThreshold b)"
    and "list_all (\<lambda>(operation, w). fails operation w) calls"
  shows "r_state (getStats (fire_calls clk b calls)) = OPEN"
proof -
  from assms(3,4) have ne: "calls \<noteq> []" by auto
  from assms(3,4) have len: "int (length calls) = failureThreshold b" by simp
  from fire_calls_failing[OF assms(5,3), of clk] assms(1) ne len assms(2)
  have "state (fire_calls clk b calls) = OPEN" by auto
  then show ?thesis by (simp add: getStats_def Let_def)
qed

theorem threshold_failures_open_the_breaker_witness:
  "state (sample_breaker :: int breaker) = CLOSED
   \<and> failureCount (sample_breaker :: int breaker) = 0
   \<and> failureThreshold (sample_breaker :: int breaker) = 2
   \<and> r_state (getStats (fire_calls clock sample_breaker
        [(rejecting ''boom'', 0), (rejecting ''timeout'', 1)])) = OPEN"
proof -
  let ?b = "sample_breaker :: int breaker"
  let ?calls = "[(rejecting ''boom'', 0), (rejecting ''timeout'', 1)] :: (int callable \<times> int) list"
  have h1: "state ?b = CLOSED" and h2: "0 \<le> failureCount ?b"
    and h3: "0 < failureThreshold ?b" and h4: "length ?calls = nat (failureThreshold ?b)"
    by (simp_all add: sample_defs)
  have h5: "list_all (\<lambda>(operation, w). fails operation w) ?calls"
    by (simp add: fails_rejecting)
  from threshold_failures_open_the_breaker [OF h1 h2 h3 h4 h5, of clock]
  show ?thesis
    by (simp add: sample_defs)
qed

subsection \<open>CircuitBreaker.reset\<close>

text \<open>
  Claim C8, as amended. After any call to \<open>reset()\<close> the state is Closed, \<open>failureCount\<close>
  and the half-open success counter are zero and the last-failure time stamp is cleared to
  \<open>null\<close>; the counters \<open>totalRequests\<close>, \<open>totalFailures\<close> and \<open>totalFallbacks\<close>
  of \<open>stats\<close> keep the values they had, as do the settings of the breaker.
\<close>

theorem reset_clears_state_machine_only:
  "reset b = b\<lparr> state := CLOSED, failureCount := 0, lastFailureTime := None,
               successCount := 0 \<rparr>
   \<and> state (reset b) = CLOSED
   \<and> failureCount (reset b) = 0
   \<and> successCount (reset b) = 0
   \<and> lastFailureTime (reset b) = None
   \<and> stats (reset b) = stats b"
  by (simp add: reset_def)

theorem reset_clears_state_machine_only_witness:
  "state (reset probing_breaker) = CLOSED
   \<and> failureCount (reset probing_breaker) = 0
   \<and> successCount (reset probing_breaker) = 0
   \<and> lastFailureTime (reset probing_breaker) = None
   \<and> stats (reset probing_breaker)
       = \<lparr> totalRequests = 3, totalFailures = 2, totalFallbacks = 0 \<rparr>"
  using reset_clears_state_machine_only [of probing_breaker]
  by (simp add: probing_breaker_eq)

text \<open>
  Claim C8 as stated also has the three counters of \<open>stats\<close> zeroed. A breaker that has
  served three requests, two of them failures, still reports them after \<open>reset()\<close>.
\<close>

theorem reset_zeroes_stats_counterexample:
  "\<not> (state (reset probing_breaker) = CLOSED
      \<and> failureCount (reset probing_breaker) = 0
      \<and> successCount (reset probing_breaker) = 0
      \<and> lastFailureTime (reset probing_breaker) = None
      \<and> totalRequests (stats (reset probing_breaker)) = 0
      \<and> totalFailures (stats (reset probing_breaker)) = 0
      \<and> totalFallbacks (stats (reset probing_breaker)) = 0)"
  by (simp add: probing_breaker_eq reset_def)

subsection \<open>FreeTierRateLimiter.checkQuota\<close>


text \<open>Under the bound on the ceiling, a quotient that passes the exact test is at least the
  double \<open>0.95\<close> and a quotient that does not is at most the double before it: rounding the
  quotient to the nearest double cannot change the outcome of the test.\<close>

lemma quotient_apart_from_double_095:
  assumes "0 < l" and "l < 10 ^ 14" and "0 \<le> k"
  shows "js_ge (js_div k l) (95 / 100) \<longrightarrow> double_095 \<le> of_int k / of_int l"
    and "\<not> js_ge (js_div k l) (95 / 100) \<longrightarrow> of_int k / of_int l \<le> double_before_095"
proof -
  have pos: "(0::rat) < of_int l" using assms(1) by simp
  have ge: "js_ge (js_div k l) (95 / 100) \<longleftrightarrow> 19 * l \<le> 20 * k"
  proof -
    have "js_ge (js_div k l) (95 / 100) \<longleftrightarrow> (95 / 100 :: rat) * of_int l \<le> of_int k"
      using assms(1) pos by (simp add: js_div_def pos_le_divide_eq)
    also have "\<dots> \<longleftrightarrow> (of_int (19 * l) :: rat) \<le> of_int (20 * k)"
      by (simp add: field_simps)
    also have "\<dots> \<longleftrightarrow> 19 * l \<le> 20 * k"
      by (simp only: of_int_le_iff)
    finally show ?thesis .
  qed
  show "js_ge (js_div k l) (95 / 100) \<longrightarrow> double_095 \<le> of_int k / of_int l"
  proof
    assume "js_ge (js_div k l) (95 / 100)"
    with ge have "19 * l \<le> 20 * k" by simp
    then have "8556839292003942 * l \<le> 9007199254740992 * k"
      using assms(1,3) by linarith
    then have "(of_int (8556839292003942 * l) :: rat) \<le> of_int (9007199254740992 * k)"
      by (simp only: of_int_le_iff)
    then show "double_095 \<le> of_int k / of_int l"
      using pos by (simp add: double_095_def pos_le_divide_eq field_simps)
  qed
  show "\<not> js_ge (js_div k l) (95 / 100) \<longrightarrow> of_int k / of_int l \<le> double_before_095"
  proof
    assume "\<not> js_ge (js_div k l) (95 / 100)"
    with ge have "20 * k + 1 \<le> 19 * l" by simp
    moreover have "l < 100000000000000" using assms(2) by simp
    ultimately have "9007199254740992 * k \<le> 8556839292003941 * l"
      by linarith
    then have "(of_int (9007199254740992 * k) :: rat) \<le> of_int (8556839292003941 * l)"
      by (simp only: of_int_le_iff)
    then show "of_int k / of_int l \<le> double_before_095"
      using pos by (simp add: double_before_095_def pos_divide_le_eq field_simps)
  qed
qed














subsection \<open>GracefulDegradationManager.executeWithDegradation\<close>

lemma setDegradationLevel_eq:
  "setDegradationLevel level reason s = s\<lparr> currentLevel := level \<rparr>"
  by (cases "currentLevel s = level") (auto simp: setDegradationLevel_def)

lemma cached_manager_eq:
  "cached_manager d = \<lparr> currentLevel = EMERGENCY,
       cache = [JStr ''k'' \<mapsto> \<lparr> data = d, expires = 300000 \<rparr>] \<rparr>"
  by (simp add: cached_manager_def setDegradationLevel_def setCachedResult_def
        new_GracefulDegradationManager_def)

lemma quota_failing_dispatch:
  assumes "currentLevel s = NORMAL \<or> currentLevel s = REDUCED \<or> currentLevel s = MINIMAL"
  shows "dispatch clk quota_failing fb s =
           (Caught (Error ''Campaign targeting failed: quota''),
            setDegradationLevel REDUCED ''D1 quota limit approached'' s)"
  using assms
  by (auto simp: dispatch_def quota_failing_def quota_failure_def return_await_def
        await_optional_def call_full_def)

text \<open>Below Emergency the variant sets the level to Reduced and fails, the \<open>catch\<close> clause
  raises the level to Minimal and calls again: the call never settles.\<close>

lemma quota_failing_never_settles:
  assumes "currentLevel s = NORMAL \<or> currentLevel s = REDUCED \<or> currentLevel s = MINIMAL"
  shows "executeWithDegradation clk quota_failing fb s = None"
proof (cases "executeWithDegradation clk quota_failing fb s")
  case None
  then show ?thesis .
next
  case (Some y)
  have "quota_failing = quota_failing \<longrightarrow>
        (currentLevel s = NORMAL \<or> currentLevel s = REDUCED \<or> currentLevel s = MINIMAL)
        \<longrightarrow> False"
  proof (rule executeWithDegradation.raw_induct[where P = "\<lambda>clk operation fb s y.
      operation = quota_failing \<longrightarrow>
      (currentLevel s = NORMAL \<or> currentLevel s = REDUCED \<or> currentLevel s = MINIMAL)
      \<longrightarrow> False", OF _ Some], goal_cases)
    case (1 exec clk operation fb s y)
    show ?case
    proof (intro impI)
      assume op: "operation = quota_failing"
        and lvl: "currentLevel s = NORMAL \<or> currentLevel s = REDUCED \<or> currentLevel s = MINIMAL"
      from 1(2) have "exec clk quota_failing fb (s\<lparr> currentLevel := MINIMAL \<rparr>) = Some y"
        by (simp add: op quota_failing_dispatch[OF lvl] setDegradationLevel_eq)
      from 1(1)[OF this] show False
        by simp
    qed
  qed
  with assms show ?thesis by simp
qed

text \<open>
  Claim C3, as amended. While the level is Emergency, \<open>executeWithDegradation\<close> returns
  the data of the cache entry under the operation's \<open>cacheKey\<close> when that entry has not
  expired and its data is truthy; when there is no entry, when the entry has expired (it is
  then evicted) or when its data is falsy, the call returns \<open>fallbackOptions.emergency\<close>.
  No variant is invoked: the result and the manager after the call depend on the cache key
  alone, not on \<open>full\<close>, \<open>reduced\<close> or \<open>minimal\<close>.
\<close>

theorem emergency_serves_truthy_cache_or_fallback:
  assumes "currentLevel s = EMERGENCY"
  shows "executeWithDegradation clk operation fallbackOptions s =
     (case cache s (cacheKey operation) of
        Some cached \<Rightarrow>
          if expires cached > clk s then
            Some (Inr (if truthy (data cached) then data cached
                       else emergency fallbackOptions), s)
          else Some (Inr (emergency fallbackOptions),
                     s\<lparr> cache := (cache s)(cacheKey operation := None) \<rparr>)
      | None \<Rightarrow> Some (Inr (emergency fallbackOptions),
                      s\<lparr> cache := (cache s)(cacheKey operation := None) \<rparr>))"
  using assms
  by (subst executeWithDegradation.simps)
     (simp add: dispatch_def getCachedResult_def js_or_def split: option.splits)

theorem emergency_serves_truthy_cache_or_fallback_witness:
  "currentLevel (cached_manager (JObj ''users'')) = EMERGENCY
   \<and> executeWithDegradation (at_time 5) failing_full \<lparr> emergency = JStr ''E'' \<rparr>
        (cached_manager (JObj ''users''))
      = Some (Inr (JObj ''users''), cached_manager (JObj ''users''))"
proof -
  have h: "currentLevel (cached_manager (JObj ''users'')) = EMERGENCY"
    by (simp add: cached_manager_eq)
  from emergency_serves_truthy_cache_or_fallback
         [OF h, of "at_time 5" failing_full "\<lparr> emergency = JStr ''E'' \<rparr>"] h
  show ?thesis
    by (simp add: cached_manager_eq failing_full_def at_time_def)
qed

text \<open>
  Claim C3 as stated returns the data of every unexpired entry. With the number 0 cached
  under the key and not expired, the call at the Emergency level returns the emergency value
  \<open>E\<close> instead: \<open>getCachedResult(key) || fallbackOptions.emergency\<close> skips a falsy value.
\<close>

theorem emergency_returns_cached_data_counterexample:
  "currentLevel (cached_manager (JNum 0)) = EMERGENCY
   \<and> cache (cached_manager (JNum 0)) (cacheKey failing_full)
       = Some \<lparr> data = JNum 0, expires = 300000 \<rparr>
   \<and> at_time 5 (cached_manager (JNum 0)) < 300000
   \<and> executeWithDegradation (at_time 5) failing_full \<lparr> emergency = JStr ''E'' \<rparr>
        (cached_manager (JNum 0))
      = Some (Inr (JStr ''E''), cached_manager (JNum 0))"
  by (subst executeWithDegradation.simps)
     (simp add: cached_manager_eq failing_full_def at_time_def dispatch_def
        getCachedResult_def js_or_def)

text \<open>
  Claim C6 does not hold of the code. An operation set with the single variant \<open>full\<close>,
  an \<open>async\<close> function that fails, is run at the Normal level: the failure is caught and
  the level raised to Reduced; there \<open>await operation.reduced?.() || operation.full()\<close>
  returns the promise of \<open>full\<close> without awaiting it, its rejection passes the \<open>catch\<close>
  clause by, and the caller gets the error while the level is Reduced. Further, with variants
  that set the level to Reduced before they fail, the retry from the \<open>catch\<close> clause goes
  on for ever.
\<close>

theorem rejection_at_reduced_escapes_escalation:
  "executeWithDegradation (at_time 0) failing_full \<lparr> emergency = JStr ''E'' \<rparr>
     (manager_at NORMAL) = Some (Inl (Error ''boom''), manager_at REDUCED)
   \<and> currentLevel (manager_at REDUCED) = REDUCED
   \<and> executeWithDegradation (at_time 0) quota_failing \<lparr> emergency = JStr ''E'' \<rparr>
        (manager_at NORMAL) = None"
proof (intro conjI)
  show "executeWithDegradation (at_time 0) failing_full \<lparr> emergency = JStr ''E'' \<rparr>
     (manager_at NORMAL) = Some (Inl (Error ''boom''), manager_at REDUCED)"
    by (rule failing_full_run)
  show "currentLevel (manager_at REDUCED) = REDUCED"
    by (simp add: manager_at_def setDegradationLevel_eq)
  show "executeWithDegradation (at_time 0) quota_failing \<lparr> emergency = JStr ''E'' \<rparr>
        (manager_at NORMAL) = None"
    by (rule quota_failing_never_settles) (simp add: manager_at_def setDegradationLevel_eq)
qed

subsection \<open>GracefulDegradationManager.setDegradationLevel\<close>

text \<open>
  Claim C9. Whatever the current level, \<open>setDegradationLevel(l, reason)\<close> leaves the
  manager at level \<open>l\<close>; this holds for every \<open>l\<close>, so for the levels 0 to 3 and for a
  level below the current one. \<open>executeWithDegradation\<close> itself only raises the level: when
  no variant lowers the level on its own, the level after a call that settles is at least the
  level before it.
\<close>

theorem setDegradationLevel_reaches_any_level:
  "currentLevel (setDegradationLevel l reason s) = l
   \<and> ((\<forall>f\<in>variants operation. never_lowers f)
        \<and> executeWithDegradation clk operation fallbackOptions s0 = Some (r, s1)
        \<longrightarrow> currentLevel s0 \<le> currentLevel s1)"
proof (intro conjI impI)
  show "currentLevel (setDegradationLevel l reason s) = l"
    by (simp add: setDegradationLevel_def)
next
  assume asm: "(\<forall>f\<in>variants operation. never_lowers f)
    \<and> executeWithDegradation clk operation fallbackOptions s0 = Some (r, s1)"
  then have run: "executeWithDegradation clk operation fallbackOptions s0 = Some (r, s1)"
    by simp
  have "(\<forall>f\<in>variants operation. never_lowers f)
        \<longrightarrow> currentLevel s0 \<le> currentLevel (snd (r, s1))"
  proof (rule executeWithDegradation.raw_induct[where P = "\<lambda>clk operation fb s y.
      (\<forall>f\<in>variants operation. never_lowers f) \<longrightarrow> currentLevel s \<le> currentLevel (snd y)",
      OF _ run], goal_cases)
    case (1 exec clk operation fb s y)
    show ?case
    proof
      assume ok: "\<forall>f\<in>variants operation. never_lowers f"
      obtain e s2 where d: "dispatch clk operation fb s = (e, s2)"
        by (cases "dispatch clk operation fb s")
      have le1: "currentLevel s \<le> currentLevel s2"
        using dispatch_level[OF ok, of s clk fb] d by simp
      show "currentLevel s \<le> currentLevel (snd y)"
      proof (cases e)
        case (Left res)
        with 1(2) d le1 show ?thesis by auto
      next
        case (Caught err)
        show ?thesis
        proof (cases "currentLevel s2 < 3")
          case True
          with 1(2) d Caught
          have "exec clk operation fb
                  (setDegradationLevel (currentLevel s2 + 1) (''Error: '' @ message err) s2)
                = Some y"
            by simp
          from 1(1)[OF this] ok
          have "currentLevel (setDegradationLevel (currentLevel s2 + 1)
                  (''Error: '' @ message err) s2) \<le> currentLevel (snd y)"
            by simp
          with le1 show ?thesis by (simp add: setDegradationLevel_def)
        next
          case False
          with 1(2) d Caught le1 show ?thesis by auto
        qed
      qed
    qed
  qed
  with asm show "currentLevel s0 \<le> currentLevel s1" by simp
qed

theorem setDegradationLevel_reaches_any_level_witness:
  "currentLevel (setDegradationLevel NORMAL ''recovered'' (manager_at EMERGENCY)) = NORMAL
   \<and> currentLevel (manager_at EMERGENCY) = EMERGENCY
   \<and> executeWithDegradation (at_time 0) failing_full \<lparr> emergency = JStr ''E'' \<rparr>
        (manager_at NORMAL) = Some (Inl (Error ''boom''), manager_at REDUCED)
   \<and> currentLevel (manager_at NORMAL) \<le> currentLevel (manager_at REDUCED)"
proof -
  have ok: "\<forall>f\<in>variants failing_full. never_lowers f"
    by (simp add: variants_def failing_full_def rejecting_never_lowers)
  show ?thesis
    using setDegradationLevel_reaches_any_level
      [of NORMAL "''recovered''" "manager_at EMERGENCY" failing_full "at_time 0"
          "\<lparr> emergency = JStr ''E'' \<rparr>" "manager_at NORMAL" "Inl (Error ''boom'')"
          "manager_at REDUCED"]
      ok failing_full_run
    by (simp add: manager_at_def setDegradationLevel_def new_GracefulDegradationManager_def)
qed

subsection \<open>retryWithBackoff\<close>

lemma retry_loop_done:
  assumes "the_maxRetries options < a"
  shows "retry_loop rt operation options a le w = (Inl le, w)"
  using assms by (subst retry_loop.simps) simp

lemma retry_loop_success:
  assumes "a \<le> the_maxRetries options" and "g (length calls) w = (r, w1)"
    and "awaited r = Inr v"
  shows "retry_loop (unrecorded_runtime rt) (recorded g) options a le (calls, w)
           = (Inr v, (calls @ [r], w1))"
  using assms by (subst retry_loop.simps) (simp add: recorded_def)

lemma retry_loop_give_up:
  assumes "a \<le> the_maxRetries options" and "g (length calls) w = (r, w1)"
    and "awaited r = Inl e" and "a = the_maxRetries options \<or> \<not> the_retryCondition options e"
  shows "retry_loop (unrecorded_runtime rt) (recorded g) options a le (calls, w)
           = (Inl (ThrownError e), (calls @ [r], w1))"
  using assms by (subst retry_loop.simps) (auto simp add: recorded_def)

lemma retry_loop_again:
  assumes "a \<le> the_maxRetries options" and "g (length calls) w = (r, w1)"
    and "awaited r = Inl e" and "a \<noteq> the_maxRetries options"
    and "the_retryCondition options e"
  shows "\<exists>w2. retry_loop (unrecorded_runtime rt) (recorded g) options a le (calls, w)
           = retry_loop (unrecorded_runtime rt) (recorded g) options (a + 1) (ThrownError e)
               (calls @ [r], w2)"
  using assms
  by (subst retry_loop.simps)
     (auto simp add: recorded_def unrecorded_runtime_def Let_def split: prod.splits)

lemma retry_loop_reaches_success:
  fixes f :: "nat \<Rightarrow> 'w callable"
  assumes fail: "\<forall>i<n. \<forall>w. \<exists>e. awaited (fst (f i w)) = Inl e \<and> the_retryCondition options e"
    and ok: "\<forall>w. awaited (fst (f n w)) = Inr v"
    and bound: "int n \<le> the_maxRetries options"
    and "length calls \<le> n"
  shows "fst (retry_loop (unrecorded_runtime rt) (recorded f) options (int (length calls)) le
                (calls, w)) = Inr v
       \<and> length (fst (snd (retry_loop (unrecorded_runtime rt) (recorded f) options
                (int (length calls)) le (calls, w)))) = n + 1"
  using assms(4)
proof (induction "n - length calls" arbitrary: calls w le)
  case 0
  then have len: "length calls = n" by simp
  obtain r w1 where call: "f (length calls) w = (r, w1)" by (cases "f (length calls) w")
  with ok len have "awaited r = Inr v" by (metis fst_conv)
  from retry_loop_success[where g = f and calls = calls and w = w and a = "int (length calls)"
         and options = options and rt = rt and le = le, OF _ call this] bound len
  show ?case by simp
next
  case (Suc k)
  then have lt: "length calls < n" by simp
  obtain r w1 where call: "f (length calls) w = (r, w1)" by (cases "f (length calls) w")
  with fail lt obtain e where e: "awaited r = Inl e" "the_retryCondition options e"
    by (metis fst_conv)
  have a: "int (length calls) \<le> the_maxRetries options"
    and ne: "int (length calls) \<noteq> the_maxRetries options"
    using lt bound by simp_all
  from retry_loop_again[where g = f and calls = calls and w = w and rt = rt and le = le,
         OF a call e(1) ne e(2)]
  obtain w2 where step:
    "retry_loop (unrecorded_runtime rt) (recorded f) options (int (length calls)) le (calls, w)
       = retry_loop (unrecorded_runtime rt) (recorded f) options (int (length calls) + 1)
           (ThrownError e) (calls @ [r], w2)" ..
  have k: "k = n - length (calls @ [r])" using Suc.hyps(2) by simp
  have le': "length (calls @ [r]) \<le> n" using lt by simp
  from Suc.hyps(1)[OF k le', of "ThrownError e" w2]
  show ?case
    unfolding step by (simp add: add.commute)
qed

lemma retry_loop_attempts:
  "length calls \<le> length (fst (snd (retry_loop (unrecorded_runtime rt) (recorded g) options a le (calls, w))))
   \<and> length (fst (snd (retry_loop (unrecorded_runtime rt) (recorded g) options a le
              (calls, w)))) \<le> length calls + nat (the_maxRetries options + 1 - a)
   \<and> (\<forall>x. fst (retry_loop (unrecorded_runtime rt) (recorded g) options a le (calls, w)) = Inl x
        \<longrightarrow> (the_maxRetries options < a \<and> x = le
              \<and> fst (snd (retry_loop (unrecorded_runtime rt) (recorded g) options a le
                    (calls, w))) = calls)
            \<or> (a \<le> the_maxRetries options \<and> (\<exists>e. x = ThrownError e
                \<and> fst (snd (retry_loop (unrecorded_runtime rt) (recorded g) options a le
                    (calls, w))) \<noteq> []
                \<and> awaited (last (fst (snd (retry_loop (unrecorded_runtime rt) (recorded g)
                    options a le (calls, w))))) = Inl e)))"
proof (induction "nat (the_maxRetries options + 1 - a)" arbitrary: a le calls w)
  case 0
  then have "the_maxRetries options < a" by simp
  then show ?case by (simp add: retry_loop_done)
next
  case (Suc k)
  then have a: "a \<le> the_maxRetries options" by simp
  obtain r w1 where call: "g (length calls) w = (r, w1)" by (cases "g (length calls) w")
  show ?case
  proof (cases "awaited r")
    case (Inr v)
    from retry_loop_success[where g = g and calls = calls and w = w and rt = rt and le = le,
           OF a call Inr] a
    show ?thesis by simp
  next
    case (Inl e)
    show ?thesis
    proof (cases "a = the_maxRetries options \<or> \<not> the_retryCondition options e")
      case True
      from retry_loop_give_up[where g = g and calls = calls and w = w and rt = rt and le = le,
             OF a call Inl True] a Inl
      show ?thesis by simp
    next
      case False
      then have ne: "a \<noteq> the_maxRetries options" and c: "the_retryCondition options e"
        by simp_all
      from retry_loop_again[where g = g and calls = calls and w = w and rt = rt and le = le,
             OF a call Inl ne c]
      obtain w2 where step:
        "retry_loop (unrecorded_runtime rt) (recorded g) options a le (calls, w)
           = retry_loop (unrecorded_runtime rt) (recorded g) options (a + 1)
               (ThrownError e) (calls @ [r], w2)" ..
      have k: "k = nat (the_maxRetries options + 1 - (a + 1))" using Suc.hyps(2) by simp
      have a1: "a + 1 \<le> the_maxRetries options" using a ne by simp
      from Suc.hyps(1)[OF k, of "calls @ [r]" "ThrownError e" w2] a a1
      show ?thesis
        unfolding step by auto
    qed
  qed
qed

text \<open>
  Claim C5. An operation that fails on its first \<open>n\<close> invocations, with errors the retry
  condition accepts, and succeeds on invocation \<open>n + 1\<close> is run with \<open>maxRetries \<ge> n\<close>:
  \<open>retryWithBackoff\<close> returns the success value and has invoked the operation exactly
  \<open>n + 1\<close> times. For any operation and any options, the operation is invoked at most
  \<open>maxRetries + 1\<close> times (not at all when that number is not positive), and when the call
  throws after at least one attempt was allowed, the error thrown is the error of the last
  invocation. The invocations are read off a record kept around the operation.
\<close>

theorem retry_returns_first_success:
  fixes f g :: "nat \<Rightarrow> 'w callable"
  assumes "\<forall>i<n. \<forall>w. \<exists>e. awaited (fst (f i w)) = Inl e \<and> the_retryCondition options e"
    and "\<forall>w. awaited (fst (f n w)) = Inr v"
    and "int n \<le> the_maxRetries options"
  shows "fst (retryWithBackoff (unrecorded_runtime rt) (recorded f) options ([], w)) = Inr v
     \<and> length (fst (snd (retryWithBackoff (unrecorded_runtime rt) (recorded f) options
                ([], w)))) = n + 1
     \<and> length (fst (snd (retryWithBackoff (unrecorded_runtime rt) (recorded g) opts
                ([], w0)))) \<le> nat (the_maxRetries opts + 1)
     \<and> (0 \<le> the_maxRetries opts
          \<and> fst (retryWithBackoff (unrecorded_runtime rt) (recorded g) opts ([], w0)) = Inl x
        \<longrightarrow> (\<exists>e. x = ThrownError e
              \<and> fst (snd (retryWithBackoff (unrecorded_runtime rt) (recorded g) opts
                    ([], w0))) \<noteq> []
              \<and> awaited (last (fst (snd (retryWithBackoff (unrecorded_runtime rt)
                    (recorded g) opts ([], w0))))) = Inl e))"
proof -
  have first: "fst (retryWithBackoff (unrecorded_runtime rt) (recorded f) options ([], w)) = Inr v
     \<and> length (fst (snd (retryWithBackoff (unrecorded_runtime rt) (recorded f) options
                ([], w)))) = n + 1"
    using retry_loop_reaches_success[OF assms, of "[]" rt ThrownUndefined w]
    by (simp add: retryWithBackoff_def)
  note general = retry_loop_attempts[of "[]" rt g opts 0 ThrownUndefined w0]
  have bound: "length (fst (snd (retryWithBackoff (unrecorded_runtime rt) (recorded g) opts
                ([], w0)))) \<le> nat (the_maxRetries opts + 1)"
    using general by (simp add: retryWithBackoff_def)
  have last: "\<exists>e. x = ThrownError e
              \<and> fst (snd (retryWithBackoff (unrecorded_runtime rt) (recorded g) opts
                    ([], w0))) \<noteq> []
              \<and> awaited (last (fst (snd (retryWithBackoff (unrecorded_runtime rt)
                    (recorded g) opts ([], w0))))) = Inl e"
    if "0 \<le> the_maxRetries opts"
      and "fst (retryWithBackoff (unrecorded_runtime rt) (recorded g) opts ([], w0)) = Inl x"
    using general that unfolding retryWithBackoff_def by fastforce
  from first bound last show ?thesis by blast
qed

lemma flaky_run:
  "retryWithBackoff (unrecorded_runtime ticking_runtime) (recorded flaky) default_options ([], 0)
     = (Inr (JStr ''ok''),
        ([Rejects (Error ''boom''), Rejects (Error ''boom''), Resolves (JStr ''ok'')], 3150))"
  by (simp add: retryWithBackoff_def retry_loop.simps recorded_def unrecorded_runtime_def
        ticking_runtime_def flaky_def default_options_def rejecting_def succeeding_def
        the_maxRetries_def the_baseDelay_def the_maxDelay_def the_backoffFactor_def
        the_retryCondition_def Let_def)

lemma hopeless_run:
  "retryWithBackoff (unrecorded_runtime ticking_runtime) (recorded hopeless) default_options
     ([], 0)
     = (Inl (ThrownError (Error ''boom'')),
        ([Rejects (Error ''boom''), Rejects (Error ''boom''), Rejects (Error ''boom''),
          Rejects (Error ''boom'')], 7350))"
  by (simp add: retryWithBackoff_def retry_loop.simps recorded_def unrecorded_runtime_def
        ticking_runtime_def hopeless_def default_options_def rejecting_def
        the_maxRetries_def the_baseDelay_def the_maxDelay_def the_backoffFactor_def
        the_retryCondition_def Let_def)

theorem retry_returns_first_success_witness:
  "int 2 \<le> the_maxRetries default_options
   \<and> retryWithBackoff (unrecorded_runtime ticking_runtime) (recorded flaky) default_options
        ([], 0)
      = (Inr (JStr ''ok''),
         ([Rejects (Error ''boom''), Rejects (Error ''boom''), Resolves (JStr ''ok'')], 3150))
   \<and> length (fst (snd (retryWithBackoff (unrecorded_runtime ticking_runtime) (recorded flaky)
        default_options ([], 0)))) = 2 + 1
   \<and> retryWithBackoff (unrecorded_runtime ticking_runtime) (recorded hopeless) default_options
        ([], 0)
      = (Inl (ThrownError (Error ''boom'')),
         ([Rejects (Error ''boom''), Rejects (Error ''boom''), Rejects (Error ''boom''),
           Rejects (Error ''boom'')], 7350))
   \<and> length (fst (snd (retryWithBackoff (unrecorded_runtime ticking_runtime)
        (recorded hopeless) default_options ([], 0)))) \<le> nat (the_maxRetries default_options + 1)"
proof -
  have h1: "\<forall>i<2. \<forall>w. \<exists>e. awaited (fst (flaky i w)) = Inl e
              \<and> the_retryCondition default_options e"
    by (simp add: flaky_def rejecting_def the_retryCondition_def default_options_def)
  have h2: "\<forall>w. awaited (fst (flaky 2 w)) = Inr (JStr ''ok'')"
    by (simp add: flaky_def succeeding_def)
  have h3: "int 2 \<le> the_maxRetries default_options"
    by (simp add: the_maxRetries_def default_options_def)
  from retry_returns_first_success
         [of 2 flaky default_options "JStr ''ok''" ticking_runtime 0 hopeless default_options 0,
          OF h1 h2 h3]
       h3 flaky_run hopeless_run
  show ?thesis by simp
qed

text \<open>
  Claim C10. With \<open>options.maxRetries\<close> below zero the loop body never runs: the operation
  is not invoked, the world is left as it is, and the call throws the value \<open>undefined\<close> of
  the variable \<open>lastError\<close>, not an \<open>Error\<close> object.
\<close>

theorem negative_maxRetries_throws_undefined:
  assumes "maxRetries options = Some m" and "m < 0"
  shows "retryWithBackoff rt operation options w = (Inl ThrownUndefined, w)"
  using assms by (simp add: retryWithBackoff_def retry_loop_done the_maxRetries_def)

theorem negative_maxRetries_throws_undefined_witness:
  "maxRetries (default_options\<lparr> maxRetries := Some (- 1) \<rparr>) = Some (- 1)
   \<and> (- 1 :: int) < 0
   \<and> retryWithBackoff (unrecorded_runtime ticking_runtime) (recorded hopeless)
        (default_options\<lparr> maxRetries := Some (- 1) \<rparr>) ([], 0)
      = (Inl ThrownUndefined, ([], 0))"
proof -
  have h1: "maxRetries (default_options\<lparr> maxRetries := Some (- 1) \<rparr>) = Some (- 1)"
    by simp
  have h2: "(- 1 :: int) < 0" by simp
  from negative_maxRetries_throws_undefined
         [OF h1 h2, of "unrecorded_runtime ticking_runtime" "recorded hopeless" "([], 0)"] h1
  show ?thesis by simp
qed

end
